theory Spec2Isabelle
  imports Main
begin

section \<open>Data model\<close>

text \<open>
  Embedding of \<^verbatim>\<open>src/index.ts\<close> (\<^verbatim>\<open>useCharts\<close>). DOM elements, engine
  instances, abort controllers, watcher handles and function objects are object
  identities (natural numbers). The host framework, the resize observation facility and
  the rendering engine are external: every call the code makes into them is appended to
  the trace \<open>calls\<close>, and the parts of their state the code relies on (the queue of
  \<^verbatim>\<open>nextTick\<close> callbacks, the set of observed targets, the table of running
  watchers) are fields of the state.
\<close>

text \<open>An entry \<^verbatim>\<open>{ el, chart }\<close> of the array \<^verbatim>\<open>charts\<close>.\<close>

record chart_entry =
  el :: nat
  chart :: nat

text \<open>Calls made by the code, in the order they are made.\<close>

datatype 'o call =
    EInit nat nat          \<comment> \<open>\<^verbatim>\<open>init(el)\<close>, with the instance it returned\<close>
  | ESetOption nat 'o      \<comment> \<open>\<^verbatim>\<open>chart.setOption(opts)\<close>\<close>
  | EResize nat            \<comment> \<open>\<^verbatim>\<open>chart.resize()\<close>\<close>
  | RObserve nat           \<comment> \<open>\<^verbatim>\<open>resizeObserver.observe(el)\<close>\<close>
  | FnCall nat nat nat     \<comment> \<open>\<^verbatim>\<open>fn(chart, el)\<close> for the init callback \<^verbatim>\<open>fn\<close>\<close>

text \<open>The calls that go into the rendering engine.\<close>

fun engine_call :: "'o call \<Rightarrow> bool" where
  "engine_call (EInit x c) = True"
| "engine_call (ESetOption c v) = True"
| "engine_call (EResize c) = True"
| "engine_call (RObserve x) = False"
| "engine_call (FnCall g c x) = False"

text \<open>
  \<^verbatim>\<open>MaybeRefOrGetter<T>\<close>: a plain value, a ref (read from the reactive store) or a
  getter (a function of the reactive store). \<^verbatim>\<open>toValue\<close> reads the current value.
\<close>

datatype 'a MaybeRefOrGetter = Plain 'a | Ref nat | Getter "(nat \<Rightarrow> 'a) \<Rightarrow> 'a"

fun toValue :: "(nat \<Rightarrow> 'a) \<Rightarrow> 'a MaybeRefOrGetter \<Rightarrow> 'a" where
  "toValue store (Plain v) = v"
| "toValue store (Ref r) = store r"
| "toValue store (Getter g) = g store"

text \<open>
  The function objects the code creates. \<open>ElInit\<close> and \<open>CompInit\<close> are the init
  callbacks of lines 129-132 and 159-162; each holds the factory whose returned
  \<^verbatim>\<open>charts\<close> it captured, the transform \<^verbatim>\<open>code[1]\<close> and its sources.
\<close>

datatype ('p, 'o) closure =
    ElInit nat "'p \<Rightarrow> chart_entry list \<Rightarrow> 'o" "'p MaybeRefOrGetter" "'o MaybeRefOrGetter option"
  | CompInit nat "'p \<Rightarrow> chart_entry list \<Rightarrow> 'o" nat

text \<open>
  The subscriptions the code creates: the two \<^verbatim>\<open>watch\<close> calls of
  \<^verbatim>\<open>createChartEl\<close> (lines 133-138) and the \<^verbatim>\<open>watchPostEffect\<close> of the
  component's \<^verbatim>\<open>setup\<close> (lines 163-166).
\<close>

datatype ('p, 'o) watcher =
    DataWatcher nat "'p \<Rightarrow> chart_entry list \<Rightarrow> 'o" "'p MaybeRefOrGetter"
  | OptsWatcher nat "'o MaybeRefOrGetter"
  | PostEffect nat "'p \<Rightarrow> chart_entry list \<Rightarrow> 'o" nat

text \<open>
  The closure environment of one \<^verbatim>\<open>createChart\<close> call. The variable
  \<^verbatim>\<open>charts\<close> holds a reference to an array, and \<^verbatim>\<open>removeInvalidChart\<close>
  rebinds it to the new array \<^verbatim>\<open>filter\<close> returns; the returned object's field
  \<^verbatim>\<open>charts\<close> keeps the reference taken when \<^verbatim>\<open>createChart\<close> returned. So the
  arrays live in a store \<open>arrays\<close> from addresses to contents, \<open>charts\<close> is the address
  the variable holds and \<open>charts_ret\<close> the address the returned object holds. The
  baseline options \<open>opts\<close> are \<open>None\<close> when the value passed is falsy.
\<close>

record 'o factory =
  opts :: "'o option"
  arrays :: "nat \<Rightarrow> chart_entry list"
  next_array :: nat
  charts :: nat
  charts_ret :: nat
  initList :: "nat list"
  AbortSignal :: nat

text \<open>The state of one \<^verbatim>\<open>useCharts()\<close> scope and of the environment it runs in.\<close>

record ('p, 'o) state =
  parentElement :: "nat \<Rightarrow> nat option"      \<comment> \<open>\<^verbatim>\<open>el.parentElement\<close>, \<open>None\<close> for null\<close>
  resize_prop :: "nat \<Rightarrow> nat option"         \<comment> \<open>\<^verbatim>\<open>el.__resize\<close>: the chart it resizes\<close>
  observed :: "nat list"                     \<comment> \<open>targets of \<^verbatim>\<open>resizeObserver\<close>\<close>
  AbortSignals :: "nat list"
  aborted :: "nat \<Rightarrow> bool"
  Watchs :: "nat list"
  watchers :: "nat \<Rightarrow> ('p, 'o) watcher option"  \<comment> \<open>the host's running watchers\<close>
  queued :: "nat \<Rightarrow> bool"                   \<comment> \<open>the watchers whose job the host has queued\<close>
  factories :: "nat \<Rightarrow> 'o factory option"
  fns :: "nat \<Rightarrow> ('p, 'o) closure option"
  ticks :: "(nat \<times> nat) list"               \<comment> \<open>queued \<^verbatim>\<open>nextTick\<close> callbacks: factory, element\<close>
  calls :: "'o call list"
  next_id :: nat
  payload_refs :: "nat \<Rightarrow> 'p"
  option_refs :: "nat \<Rightarrow> 'o"
  props :: "nat \<Rightarrow> 'p \<times> 'o option"         \<comment> \<open>\<^verbatim>\<open>props.data\<close>, \<^verbatim>\<open>props.opts\<close> per component\<close>

section \<open>Array operations of the language\<close>



section \<open>The chart factory: createChart\<close>

text \<open>
  Line 70: \<^verbatim>\<open>charts = charts.filter(({ el }) => el.parentElement)\<close>. An entry is kept
  when its element's \<^verbatim>\<open>parentElement\<close> is not null.
\<close>

definition removeInvalidChart :: "(nat \<Rightarrow> nat option) \<Rightarrow> 'o factory \<Rightarrow> 'o factory" where
  "removeInvalidChart par F =
     F\<lparr>arrays := (arrays F)(next_array F :=
                filter (\<lambda>b. par (el b) \<noteq> None) (arrays F (charts F))),
       charts := next_array F,
       next_array := Suc (next_array F)\<rparr>"

text \<open>The array the variable \<^verbatim>\<open>charts\<close> holds, and the one the returned object holds.\<close>

definition live_charts :: "'o factory \<Rightarrow> chart_entry list" where
  "live_charts F = arrays F (charts F)"

definition returned_charts :: "'o factory \<Rightarrow> chart_entry list" where
  "returned_charts F = arrays F (charts_ret F)"

text \<open>
  The array a closure of \<^verbatim>\<open>createChartEl\<close> or of \<^verbatim>\<open>setup\<close> reads through the
  \<^verbatim>\<open>charts\<close> it destructured from the object factory \<open>f\<close> returned.
\<close>

definition captured_charts :: "nat \<Rightarrow> ('p, 'o) state \<Rightarrow> chart_entry list" where
  "captured_charts f s = (case factories s f of None \<Rightarrow> [] | Some F \<Rightarrow> returned_charts F)"

text \<open>
  Lines 72-77. The functions of a factory are closures \<^verbatim>\<open>createChart\<close> creates: for
  an identity that names no factory there is nothing to call, and the state is left as
  it is.
\<close>

definition setOption :: "nat \<Rightarrow> 'o \<Rightarrow> ('p, 'o) state \<Rightarrow> ('p, 'o) state" where
  "setOption f v s =
     (case factories s f of
        None \<Rightarrow> s
      | Some F \<Rightarrow>
          (let F' = removeInvalidChart (parentElement s) F
           in s\<lparr>factories := (factories s)(f := Some F'),
                calls := calls s @ map (\<lambda>b. ESetOption (chart b) v) (live_charts F')\<rparr>))"

text \<open>Lines 96-101: \<^verbatim>\<open>onInit\<close> and the function it returns.\<close>

definition onInit :: "nat \<Rightarrow> nat \<Rightarrow> ('p, 'o) state \<Rightarrow> ('p, 'o) state" where
  "onInit f g s =
     (case factories s f of
        None \<Rightarrow> s
      | Some F \<Rightarrow> s\<lparr>factories := (factories s)(f := Some (F\<lparr>initList := initList F @ [g]\<rparr>))\<rparr>)"


text \<open>
  An init callback called with \<^verbatim>\<open>(chart, el)\<close>. The callbacks of lines 129-132 and
  159-162 apply the transform's result and then the options, when there are any; the
  \<^verbatim>\<open>charts\<close> they pass to the transform is the field of the object
  \<^verbatim>\<open>createChart\<close> returned.
\<close>

definition call_fn :: "nat \<Rightarrow> nat \<Rightarrow> nat \<Rightarrow> ('p, 'o) state \<Rightarrow> ('p, 'o) state" where
  "call_fn c x g s =
     (let s1 = s\<lparr>calls := calls s @ [FnCall g c x]\<rparr>
      in case fns s g of
           None \<Rightarrow> s1
         | Some (ElInit f tr dat op) \<Rightarrow>
             (let cs = captured_charts f s;
                  s2 = s1\<lparr>calls := calls s1 @ [ESetOption c (tr (toValue (payload_refs s) dat) cs)]\<rparr>
              in case op of
                   None \<Rightarrow> s2
                 | Some src \<Rightarrow> s2\<lparr>calls := calls s2 @ [ESetOption c (toValue (option_refs s) src)]\<rparr>)
         | Some (CompInit f tr p) \<Rightarrow>
             (let cs = captured_charts f s;
                  s2 = s1\<lparr>calls := calls s1 @ [ESetOption c (tr (fst (props s p)) cs)]\<rparr>
              in case snd (props s p) of
                   None \<Rightarrow> s2
                 | Some v \<Rightarrow> s2\<lparr>calls := calls s2 @ [ESetOption c v]\<rparr>))"

text \<open>Lines 102-104: the ref callback \<^verbatim>\<open>initEl\<close> up to the call of \<^verbatim>\<open>nextTick\<close>.\<close>

definition initEl :: "nat \<Rightarrow> nat option \<Rightarrow> ('p, 'o) state \<Rightarrow> ('p, 'o) state" where
  "initEl f e s =
     (case factories s f of
        None \<Rightarrow> s
      | Some F \<Rightarrow>
          (case e of
             None \<Rightarrow> s
           | Some x \<Rightarrow>
               if list_ex (\<lambda>b. el b = x) (live_charts F) then s
               else s\<lparr>ticks := ticks s @ [(f, x)]\<rparr>))"

text \<open>\<^verbatim>\<open>resizeObserver.observe(el)\<close>: observing a target twice keeps one observation.\<close>

definition observe :: "nat \<Rightarrow> ('p, 'o) state \<Rightarrow> ('p, 'o) state" where
  "observe x s =
     s\<lparr>observed := (if x \<in> set (observed s) then observed s else observed s @ [x]),
       calls := calls s @ [RObserve x]\<rparr>"

text \<open>
  Lines 105-114: the callback \<^verbatim>\<open>initEl\<close> passed to \<^verbatim>\<open>nextTick\<close>. The engine's
  \<^verbatim>\<open>init\<close> is taken to return a handle not used before. The baseline options are
  applied when they are truthy (\<^verbatim>\<open>opts && chart.setOption(opts)\<close>).
\<close>

definition initEl_deferred :: "nat \<Rightarrow> nat \<Rightarrow> ('p, 'o) state \<Rightarrow> ('p, 'o) state" where
  "initEl_deferred f x s =
     (case factories s f of
        None \<Rightarrow> s
      | Some F \<Rightarrow>
          (let F1 = removeInvalidChart (parentElement s) F;
               c = next_id s;
               s1 = s\<lparr>next_id := Suc c, calls := calls s @ [EInit x c]\<rparr>;
               s2 = observe x s1;
               s3 = s2\<lparr>resize_prop := (resize_prop s2)(x := Some c)\<rparr>;
               F2 = F1\<lparr>arrays := (arrays F1)(charts F1 := arrays F1 (charts F1) @ [\<lparr>el = x, chart = c\<rparr>])\<rparr>;
               s4 = s3\<lparr>factories := (factories s3)(f := Some F2)\<rparr>;
               s5 = (case opts F2 of
                       None \<Rightarrow> s4
                     | Some v \<Rightarrow> s4\<lparr>calls := calls s4 @ [ESetOption c v]\<rparr>)
           in fold (call_fn c x) (initList F2) s5))"

section \<open>The scope: useCharts\<close>

text \<open>
  Lines 46-51: the callback of the resize observer. Calling \<^verbatim>\<open>__resize\<close> on a target
  that has no such property throws.
\<close>

datatype error = TypeError

text \<open>The error case carries the state reached when the exception was thrown.\<close>

fun resize_callback ::
  "nat list \<Rightarrow> ('p, 'o) state \<Rightarrow> (error \<times> ('p, 'o) state) + ('p, 'o) state" where
  "resize_callback [] s = Inr s"
| "resize_callback (t # ts) s =
     (case resize_prop s t of
        None \<Rightarrow> Inl (TypeError, s)
      | Some c \<Rightarrow> resize_callback ts (s\<lparr>calls := calls s @ [EResize c]\<rparr>))"

text \<open>Lines 55-63: the callback registered with \<^verbatim>\<open>onUnmounted\<close>.\<close>

definition unmounted :: "('p, 'o) state \<Rightarrow> ('p, 'o) state" where
  "unmounted s =
     s\<lparr>aborted := (\<lambda>c. c \<in> set (AbortSignals s) \<or> aborted s c),
       watchers := (\<lambda>w. if w \<in> set (Watchs s) then None else watchers s w),
       observed := []\<rparr>"

text \<open>
  Lines 64-67 and 118-124: \<^verbatim>\<open>createChart\<close>, returning the new factory. The array
  literal \<^verbatim>\<open>[]\<close> is allocated at address 0 of the factory's store.
\<close>

definition createChart :: "'o option \<Rightarrow> ('p, 'o) state \<Rightarrow> nat \<times> ('p, 'o) state" where
  "createChart base s =
     (let a = next_id s; f = Suc (next_id s)
      in (f, s\<lparr>AbortSignals := AbortSignals s @ [a],
                aborted := (aborted s)(a := False),
                factories := (factories s)(f := Some
                  \<lparr>opts = base, arrays = (\<lambda>_. []), next_array = 1, charts = 0, charts_ret = 0,
                   initList = [], AbortSignal = a\<rparr>),
                next_id := Suc (Suc (next_id s))\<rparr>))"

text \<open>
  A chart template is the pair \<^verbatim>\<open>defineCharts\<close> builds (line 36).
\<close>

definition defineCharts ::
  "'o option \<Rightarrow> ('p \<Rightarrow> chart_entry list \<Rightarrow> 'o) \<Rightarrow> 'o option \<times> ('p \<Rightarrow> chart_entry list \<Rightarrow> 'o)" where
  "defineCharts opt fn = (opt, fn)"

text \<open>
  What the host subscribes a watcher to. Lines 133 and 136 pass the getters
  \<^verbatim>\<open>() => data\<close> and \<^verbatim>\<open>() => opts\<close> with \<^verbatim>\<open>{ deep: true }\<close>: the getter returns the
  source itself, not its value, and the host's deep traversal of what the getter returned
  reads the value of a ref and nothing of a function or of a plain value. So a watcher
  over a ref source is subscribed to that ref, and a watcher over a getter or a plain
  value to nothing. The effect of lines 163-166 reads \<^verbatim>\<open>props.data\<close> and
  \<^verbatim>\<open>props.opts\<close> and is subscribed to its component's props.
\<close>

fun deep_deps :: "'a MaybeRefOrGetter \<Rightarrow> nat \<Rightarrow> bool" where
  "deep_deps (Ref r) r' = (r' = r)"
| "deep_deps (Getter g) r' = False"
| "deep_deps (Plain v) r' = False"

fun tracks_payload :: "('p, 'o) watcher \<Rightarrow> nat \<Rightarrow> bool" where
  "tracks_payload (DataWatcher f tr src) r = deep_deps src r"
| "tracks_payload (OptsWatcher f src) r = False"
| "tracks_payload (PostEffect f tr p) r = False"

fun tracks_options :: "('p, 'o) watcher \<Rightarrow> nat \<Rightarrow> bool" where
  "tracks_options (DataWatcher f tr src) r = False"
| "tracks_options (OptsWatcher f src) r = deep_deps src r"
| "tracks_options (PostEffect f tr p) r = False"

fun tracks_props :: "('p, 'o) watcher \<Rightarrow> nat \<Rightarrow> bool" where
  "tracks_props (DataWatcher f tr src) p' = False"
| "tracks_props (OptsWatcher f src) p' = False"
| "tracks_props (PostEffect f tr p) p' = (p' = p)"

text \<open>
  \<^verbatim>\<open>watch(source, cb, { deep: true })\<close> of the host: a new running watcher, whose
  handle is returned. Its callback is not run until something it is subscribed to
  changes. \<^verbatim>\<open>watchPostEffect(fn)\<close> also queues a first run of the effect.
\<close>

definition watch :: "('p, 'o) watcher \<Rightarrow> ('p, 'o) state \<Rightarrow> nat \<times> ('p, 'o) state" where
  "watch w s =
     (let h = next_id s
      in (h, s\<lparr>watchers := (watchers s)(h := Some w), queued := (queued s)(h := False),
                next_id := Suc h\<rparr>))"

definition watchPostEffect :: "('p, 'o) watcher \<Rightarrow> ('p, 'o) state \<Rightarrow> nat \<times> ('p, 'o) state" where
  "watchPostEffect w s =
     (let h = next_id s
      in (h, s\<lparr>watchers := (watchers s)(h := Some w), queued := (queued s)(h := True),
                next_id := Suc h\<rparr>))"

text \<open>Lines 127-141: \<^verbatim>\<open>createChartEl\<close>. The element it returns is named by its factory.\<close>

definition createChartEl ::
  "'o option \<times> ('p \<Rightarrow> chart_entry list \<Rightarrow> 'o) \<Rightarrow> 'p MaybeRefOrGetter \<Rightarrow> 'o MaybeRefOrGetter option \<Rightarrow>
   ('p, 'o) state \<Rightarrow> nat \<times> ('p, 'o) state" where
  "createChartEl code dat op s =
     (let (f, s1) = createChart (fst code) s;
          g = next_id s1;
          s2 = onInit f g (s1\<lparr>fns := (fns s1)(g := Some (ElInit f (snd code) dat op)),
                              next_id := Suc g\<rparr>);
          (h, s3) = watch (DataWatcher f (snd code) dat) s2;
          s4 = s3\<lparr>Watchs := Watchs s3 @ [h]\<rparr>;
          s6 = (case op of
                  None \<Rightarrow> s4
                | Some src \<Rightarrow>
                    (let (k, s5) = watch (OptsWatcher f src) s4
                     in s5\<lparr>Watchs := Watchs s5 @ [k]\<rparr>))
      in (f, s6))"

text \<open>
  Lines 156-168: \<^verbatim>\<open>setup(props)\<close> of the component \<^verbatim>\<open>createChartComp\<close> defines,
  for the component instance whose props are \<open>props s p\<close>. The post effect is not pushed
  to \<^verbatim>\<open>Watchs\<close>.
\<close>

definition createChartComp_setup ::
  "'o option \<times> ('p \<Rightarrow> chart_entry list \<Rightarrow> 'o) \<Rightarrow> nat \<Rightarrow> ('p, 'o) state \<Rightarrow> nat \<times> ('p, 'o) state" where
  "createChartComp_setup code p s =
     (let (f, s1) = createChart (fst code) s;
          g = next_id s1;
          s2 = onInit f g (s1\<lparr>fns := (fns s1)(g := Some (CompInit f (snd code) p)),
                              next_id := Suc g\<rparr>);
          (h, s3) = watchPostEffect (PostEffect f (snd code) p) s2
      in (f, s3))"

text \<open>
  The callbacks of the subscriptions (lines 133-138 and 163-166), for a watcher that is
  still running; a stopped watcher's callback is not run.
\<close>

definition run_watcher :: "nat \<Rightarrow> ('p, 'o) state \<Rightarrow> ('p, 'o) state" where
  "run_watcher h s =
     (case watchers s h of
        None \<Rightarrow> s
      | Some (DataWatcher f tr dat) \<Rightarrow>
          setOption f (tr (toValue (payload_refs s) dat) (captured_charts f s)) s
      | Some (OptsWatcher f src) \<Rightarrow> setOption f (toValue (option_refs s) src) s
      | Some (PostEffect f tr p) \<Rightarrow>
          (let s1 = setOption f (tr (fst (props s p)) (captured_charts f s)) s
           in case snd (props s p) of
                None \<Rightarrow> s1
              | Some v \<Rightarrow> setOption f v s1))"

text \<open>The state when \<^verbatim>\<open>useCharts()\<close> has returned: nothing registered yet.\<close>

definition useCharts ::
  "(nat \<Rightarrow> nat option) \<Rightarrow> (nat \<Rightarrow> 'p) \<Rightarrow> (nat \<Rightarrow> 'o) \<Rightarrow> (nat \<Rightarrow> 'p \<times> 'o option) \<Rightarrow>
   ('p, 'o) state" where
  "useCharts par ps os prs =
     \<lparr>parentElement = par, resize_prop = (\<lambda>_. None), observed = [], AbortSignals = [],
      aborted = (\<lambda>_. False), Watchs = [], watchers = (\<lambda>_. None), queued = (\<lambda>_. False),
      factories = (\<lambda>_. None),
      fns = (\<lambda>_. None), ticks = [], calls = [], next_id = 0,
      payload_refs = ps, option_refs = os, props = prs\<rparr>"

section \<open>Runs of the scope\<close>

text \<open>
  What the consumer, the host framework and the platform can do to a scope, one event at
  a time: the event loop is single-threaded, so a run is a list of events.
\<close>

datatype ('p, 'o) event =
    CreateChartEl "'o option \<times> ('p \<Rightarrow> chart_entry list \<Rightarrow> 'o)" "'p MaybeRefOrGetter"
      "'o MaybeRefOrGetter option"          \<comment> \<open>the consumer calls \<^verbatim>\<open>createChartEl\<close>\<close>
  | SetupComp "'o option \<times> ('p \<Rightarrow> chart_entry list \<Rightarrow> 'o)" nat
                                             \<comment> \<open>the host runs a component's \<^verbatim>\<open>setup\<close>\<close>
  | RefCallback nat "nat option"            \<comment> \<open>the host calls \<^verbatim>\<open>initEl\<close> of a factory\<close>
  | NextTick                                \<comment> \<open>the host runs the oldest \<^verbatim>\<open>nextTick\<close> callback\<close>
  | Notify nat                              \<comment> \<open>the host runs a watcher's queued job\<close>
  | ResizeBatch "nat list"                  \<comment> \<open>the platform reports size changes\<close>
  | Unmounted                               \<comment> \<open>the host runs the \<^verbatim>\<open>onUnmounted\<close> hook\<close>
  | SetParent nat "nat option"              \<comment> \<open>an element is appended to a parent, or removed\<close>
  | SetPayload nat 'p                       \<comment> \<open>a payload ref is written\<close>
  | SetOptions nat 'o                       \<comment> \<open>an options ref is written\<close>
  | SetProps nat "'p \<times> 'o option"         \<comment> \<open>a component receives new props\<close>

text \<open>
  The platform reports size changes of observed targets only. An exception thrown by the
  observer's callback ends that callback; the calls it made before stay made.
\<close>

definition deliver_resize :: "nat list \<Rightarrow> ('p, 'o) state \<Rightarrow> ('p, 'o) state" where
  "deliver_resize ts s =
     (case resize_callback (filter (\<lambda>t. t \<in> set (observed s)) ts) s of
        Inl (e, s') \<Rightarrow> s'
      | Inr s' \<Rightarrow> s')"

text \<open>
  The host queues the job of a watcher when something the watcher is subscribed to is
  written, and later runs the queued job once. It runs queued jobs in the order they
  were queued; here it may pick any queued job.
\<close>

definition trigger :: "(('p, 'o) watcher \<Rightarrow> bool) \<Rightarrow> ('p, 'o) state \<Rightarrow> ('p, 'o) state" where
  "trigger subscribed s =
     s\<lparr>queued := (\<lambda>h. queued s h \<or> (case watchers s h of None \<Rightarrow> False | Some w \<Rightarrow> subscribed w))\<rparr>"

definition flush_job :: "nat \<Rightarrow> ('p, 'o) state \<Rightarrow> ('p, 'o) state" where
  "flush_job h s =
     (if queued s h then run_watcher h (s\<lparr>queued := (queued s)(h := False)\<rparr>) else s)"

definition run_tick :: "('p, 'o) state \<Rightarrow> ('p, 'o) state" where
  "run_tick s =
     (case ticks s of
        [] \<Rightarrow> s
      | (f, x) # rest \<Rightarrow> initEl_deferred f x (s\<lparr>ticks := rest\<rparr>))"

fun step :: "('p, 'o) event \<Rightarrow> ('p, 'o) state \<Rightarrow> ('p, 'o) state" where
  "step (CreateChartEl code dat op) s = snd (createChartEl code dat op s)"
| "step (SetupComp code p) s = snd (createChartComp_setup code p s)"
| "step (RefCallback f e) s = initEl f e s"
| "step NextTick s = run_tick s"
| "step (Notify h) s = flush_job h s"
| "step (ResizeBatch ts) s = deliver_resize ts s"
| "step Unmounted s = unmounted s"
| "step (SetParent x y) s = s\<lparr>parentElement := (parentElement s)(x := y)\<rparr>"
| "step (SetPayload r v) s =
     trigger (\<lambda>w. tracks_payload w r) (s\<lparr>payload_refs := (payload_refs s)(r := v)\<rparr>)"
| "step (SetOptions r v) s =
     trigger (\<lambda>w. tracks_options w r) (s\<lparr>option_refs := (option_refs s)(r := v)\<rparr>)"
| "step (SetProps p v) s =
     trigger (\<lambda>w. tracks_props w p) (s\<lparr>props := (props s)(p := v)\<rparr>)"

fun run :: "('p, 'o) event list \<Rightarrow> ('p, 'o) state \<Rightarrow> ('p, 'o) state" where
  "run [] s = s"
| "run (ev # evs) s = run evs (step ev s)"

section \<open>Reading a state\<close>

text \<open>The engine instance a call addresses, if it is a call into the engine.\<close>

fun call_target :: "'o call \<Rightarrow> nat option" where
  "call_target (EInit x c) = Some c"
| "call_target (ESetOption c v) = Some c"
| "call_target (EResize c) = Some c"
| "call_target (RObserve x) = None"
| "call_target (FnCall g c x) = None"

text \<open>The calls of an init callback, and the instance creations.\<close>

fun fn_call :: "'o call \<Rightarrow> bool" where
  "fn_call (FnCall g c x) = True"
| "fn_call (EInit x c) = False"
| "fn_call (ESetOption c v) = False"
| "fn_call (EResize c) = False"
| "fn_call (RObserve x) = False"

fun init_call :: "'o call \<Rightarrow> bool" where
  "init_call (EInit x c) = True"
| "init_call (ESetOption c v) = False"
| "init_call (EResize c) = False"
| "init_call (RObserve x) = False"
| "init_call (FnCall g c x) = False"

text \<open>The calls made between a state and a later one.\<close>

definition new_calls :: "('p, 'o) state \<Rightarrow> ('p, 'o) state \<Rightarrow> 'o call list" where
  "new_calls s s' = drop (length (calls s)) (calls s')"

text \<open>
  The binding list of a factory, its entries whose element has a parent element, and its
  registered init callbacks.
\<close>

definition bindings :: "nat \<Rightarrow> ('p, 'o) state \<Rightarrow> chart_entry list" where
  "bindings f s = (case factories s f of None \<Rightarrow> [] | Some F \<Rightarrow> live_charts F)"

definition parented_bindings :: "nat \<Rightarrow> ('p, 'o) state \<Rightarrow> chart_entry list" where
  "parented_bindings f s = filter (\<lambda>b. parentElement s (el b) \<noteq> None) (bindings f s)"

definition init_callbacks :: "nat \<Rightarrow> ('p, 'o) state \<Rightarrow> nat list" where
  "init_callbacks f s = (case factories s f of None \<Rightarrow> [] | Some F \<Rightarrow> initList F)"

text \<open>
  An element is in the document's tree when the chain of its parents reaches the
  document's root element \<open>d\<close>. An element that was removed from the tree together with
  an ancestor still has its parent.
\<close>

inductive in_tree :: "(nat \<Rightarrow> nat option) \<Rightarrow> nat \<Rightarrow> nat \<Rightarrow> bool" for par d where
  root: "in_tree par d d"
| child: "par x = Some y \<Longrightarrow> in_tree par d y \<Longrightarrow> in_tree par d x"

text \<open>
  The events that leave a scope quiet once it is unmounted: every event but the run of a
  deferred callback and the run of a job of a watcher that is not among \<open>W\<close>.
\<close>

fun quiet :: "nat list \<Rightarrow> ('p, 'o) event \<Rightarrow> bool" where
  "quiet W NextTick = False"
| "quiet W (Notify h) = (h \<in> set W)"
| "quiet W (ResizeBatch ts) = True"
| "quiet W (SetParent x y) = True"
| "quiet W (SetPayload r v) = True"
| "quiet W (SetOptions r v) = True"
| "quiet W (SetProps p v) = True"
| "quiet W (CreateChartEl code dat op) = True"
| "quiet W (SetupComp code p) = True"
| "quiet W (RefCallback f e) = True"
| "quiet W Unmounted = True"

text \<open>The factory whose \<^verbatim>\<open>setOption\<close> the callback of a watcher calls.\<close>

fun watcher_factory :: "('p, 'o) watcher \<Rightarrow> nat" where
  "watcher_factory (DataWatcher f tr src) = f"
| "watcher_factory (OptsWatcher f src) = f"
| "watcher_factory (PostEffect f tr p) = f"

text \<open>
  Nothing is observed, and each of the watchers \<open>W\<close> is stopped or belongs to a factory
  without bindings.
\<close>

definition silenced :: "nat list \<Rightarrow> ('p, 'o) state \<Rightarrow> bool" where
  "silenced W s =
     (observed s = []
      \<and> list_all (\<lambda>h. case watchers s h of
                        None \<Rightarrow> True
                      | Some w \<Rightarrow> bindings (watcher_factory w) s = []) W)"

text \<open>
  A run is guarded when \<^verbatim>\<open>initEl\<close> is never called with an element for which a
  deferred callback of the same factory is still queued.
\<close>

fun guarded_event :: "('p, 'o) event \<Rightarrow> ('p, 'o) state \<Rightarrow> bool" where
  "guarded_event (RefCallback f (Some x)) s = ((f, x) \<notin> set (ticks s))"
| "guarded_event ev s = True"

fun guarded :: "('p, 'o) event list \<Rightarrow> ('p, 'o) state \<Rightarrow> bool" where
  "guarded [] s = True"
| "guarded (ev # evs) s = (guarded_event ev s \<and> guarded evs (step ev s))"

text \<open>
  No element is bound twice by a factory, queued twice for it, or both bound and queued.
\<close>

definition no_double :: "('p, 'o) state \<Rightarrow> bool" where
  "no_double s =
     (distinct (ticks s) \<and> (\<forall>f. distinct (map el (bindings f s)))
      \<and> (\<forall>f x. (f, x) \<in> set (ticks s) \<longrightarrow> x \<notin> el ` set (bindings f s)))"

text \<open>
  The array the returned object holds is allocated and empty, in one factory and in all.
\<close>

definition returned_empty :: "'o factory \<Rightarrow> bool" where
  "returned_empty F = (returned_charts F = [] \<and> charts_ret F < next_array F)"

definition all_returned_empty :: "('p, 'o) state \<Rightarrow> bool" where
  "all_returned_empty s = (\<forall>f F. factories s f = Some F \<longrightarrow> returned_empty F)"


section \<open>Example scopes\<close>

text \<open>
  A template over numbers: the baseline options are 100 and the transform adds ten times
  the number of charts it is given to the payload. The document's root element is 10,
  and element 40 is a wrapper in it. In \<open>scope0\<close> only the wrapper has a parent, every
  payload ref holds 1, every options ref 2, and every component has the payload 3 and no
  options. In \<open>scope1\<close> the consumer has called \<^verbatim>\<open>createChartEl\<close> once, with a payload
  ref and an options ref; the factory is 1, its init callback 2, its watchers 3
  (payload) and 4 (options). In \<open>scope2\<close> the elements 50 and 51 have been put in the
  wrapper and initialised (instances 5 and 6), and 50 has been removed from the wrapper
  since. In \<open>scope3\<close> a component has been set up instead (factory 1, init callback 2,
  post effect 3), its element 60 put in the wrapper and initialised (instance 4), and
  its props set to the payload 4 and the options 8. In \<open>scope4\<close> the payload source of
  \<^verbatim>\<open>createChartEl\<close> is a getter that reads the payload ref 0, there is no options
  source, and element 50 is initialised (factory 1, watcher 3, instance 4).
\<close>

definition template0 :: "nat option \<times> (nat \<Rightarrow> chart_entry list \<Rightarrow> nat)" where
  "template0 = defineCharts (Some 100) (\<lambda>d cs. d + 10 * length cs)"

definition scope0 :: "(nat, nat) state" where
  "scope0 = useCharts ((\<lambda>_. None)(40 := Some 10)) (\<lambda>_. 1) (\<lambda>_. 2) (\<lambda>_. (3, None))"

definition events1 :: "(nat, nat) event list" where
  "events1 = [CreateChartEl template0 (Ref 0) (Some (Ref 0))]"

definition events2 :: "(nat, nat) event list" where
  "events2 = [SetParent 50 (Some 40), RefCallback 1 (Some 50), NextTick,
              SetParent 51 (Some 40), RefCallback 1 (Some 51), NextTick,
              SetParent 50 None]"

definition scope1 :: "(nat, nat) state" where
  "scope1 = run events1 scope0"

definition scope2 :: "(nat, nat) state" where
  "scope2 = run events2 scope1"

definition scope3 :: "(nat, nat) state" where
  "scope3 = run [SetupComp template0 0, SetParent 60 (Some 40), RefCallback 1 (Some 60), NextTick,
                 SetProps 0 (4, Some 8)] scope0"

definition scope4 :: "(nat, nat) state" where
  "scope4 = run [CreateChartEl template0 (Getter (\<lambda>store. store 0)) None,
                 SetParent 50 (Some 40), RefCallback 1 (Some 50), NextTick] scope0"

text \<open>
  Three runs from \<open>scope1\<close>. In \<open>double_attach\<close> element 50 is put in the wrapper and
  \<^verbatim>\<open>initEl\<close> is called twice with it before the deferred callbacks run. In
  \<open>late_attach\<close> element 50 is handed to \<^verbatim>\<open>initEl\<close>, the scope is unmounted, and then
  the deferred callback runs. In \<open>wrapper_removed\<close> the elements 50 and 51 are put in the
  wrapper and initialised, and then the wrapper is removed from the document with both
  in it.
\<close>

definition double_attach :: "(nat, nat) event list" where
  "double_attach = [SetParent 50 (Some 40), RefCallback 1 (Some 50), RefCallback 1 (Some 50),
                    NextTick, NextTick]"

definition late_attach :: "(nat, nat) event list" where
  "late_attach = [SetParent 50 (Some 40), RefCallback 1 (Some 50), Unmounted, NextTick]"

definition wrapper_removed :: "(nat, nat) event list" where
  "wrapper_removed = [SetParent 50 (Some 40), RefCallback 1 (Some 50), NextTick,
                      SetParent 51 (Some 40), RefCallback 1 (Some 51), NextTick,
                      SetParent 40 None, RefCallback 1 None]"

section \<open>Properties\<close>

lemmas scope_defs =
  scope0_def scope1_def scope2_def scope3_def scope4_def events1_def events2_def
  double_attach_def late_attach_def wrapper_removed_def template0_def defineCharts_def
  useCharts_def createChartEl_def createChartComp_setup_def createChart_def onInit_def
  watch_def watchPostEffect_def trigger_def flush_job_def
  initEl_def run_tick_def initEl_deferred_def removeInvalidChart_def live_charts_def
  returned_charts_def observe_def call_fn_def setOption_def bindings_def
  parented_bindings_def init_callbacks_def new_calls_def captured_charts_def
  run_watcher_def unmounted_def deliver_resize_def Let_def

subsection \<open>Frame lemmas\<close>

lemma removeInvalidChart_live:
  "live_charts (removeInvalidChart par F) = filter (\<lambda>b. par (el b) \<noteq> None) (live_charts F)"
  by (simp add: removeInvalidChart_def live_charts_def)

lemma setOption_calls:
  "factories s f = Some F \<Longrightarrow>
   calls (setOption f v s) = calls s @ map (\<lambda>b. ESetOption (chart b) v) (parented_bindings f s)"
  by (simp add: setOption_def bindings_def parented_bindings_def removeInvalidChart_live Let_def)

lemma setOption_bindings:
  "bindings f (setOption g v s) = (if f = g then parented_bindings f s else bindings f s)"
  by (simp add: setOption_def bindings_def parented_bindings_def removeInvalidChart_live Let_def
      split: option.splits)

lemma setOption_frame:
  "parentElement (setOption f v s) = parentElement s"
  "watchers (setOption f v s) = watchers s"
  "observed (setOption f v s) = observed s"
  "payload_refs (setOption f v s) = payload_refs s"
  "option_refs (setOption f v s) = option_refs s"
  "props (setOption f v s) = props s"
  "ticks (setOption f v s) = ticks s"
  by (simp_all add: setOption_def Let_def split: option.splits)

lemma setOption_factory:
  "factories (setOption f v s) g
     = (if g = f then map_option (removeInvalidChart (parentElement s)) (factories s f)
        else factories s g)"
  by (simp add: setOption_def Let_def split: option.splits)

lemma setOption_init_callbacks: "init_callbacks g (setOption f v s) = init_callbacks g s"
  by (simp add: init_callbacks_def setOption_def removeInvalidChart_def Let_def
      split: option.splits)

lemma setOption_no_bindings:
  "bindings f s = [] \<Longrightarrow> calls (setOption f v s) = calls s"
  by (simp add: setOption_def bindings_def removeInvalidChart_live Let_def split: option.splits)

lemma call_fn_appends:
  "\<exists>ks. call_fn c x g s = s\<lparr>calls := calls s @ FnCall g c x # ks\<rparr> \<and> filter fn_call ks = []"
  by (auto simp: call_fn_def Let_def split: option.splits closure.splits)

lemma fold_call_fn_appends:
  "\<exists>rest. fold (call_fn c x) gs s = s\<lparr>calls := calls s @ rest\<rparr>
          \<and> filter fn_call rest = map (\<lambda>g. FnCall g c x) gs"
proof (induction gs arbitrary: s)
  case Nil
  show ?case by (rule exI [of _ "[]"]) simp
next
  case (Cons g gs)
  obtain ks where ks: "call_fn c x g s = s\<lparr>calls := calls s @ FnCall g c x # ks\<rparr>"
      "filter fn_call ks = []"
    using call_fn_appends by blast
  obtain rest where rest:
      "fold (call_fn c x) gs (call_fn c x g s)
         = (call_fn c x g s)\<lparr>calls := calls (call_fn c x g s) @ rest\<rparr>"
      "filter fn_call rest = map (\<lambda>g. FnCall g c x) gs"
    using Cons.IH by blast
  have "fold (call_fn c x) (g # gs) s = s\<lparr>calls := calls s @ (FnCall g c x # ks @ rest)\<rparr>"
    using rest(1) by (simp add: ks(1))
  moreover have "filter fn_call (FnCall g c x # ks @ rest) = map (\<lambda>g. FnCall g c x) (g # gs)"
    using ks(2) rest(2) by simp
  ultimately show ?case by blast
qed

lemma fold_call_fn_frame:
  "ticks (fold (call_fn c x) gs s) = ticks s"
  "factories (fold (call_fn c x) gs s) = factories s"
  "observed (fold (call_fn c x) gs s) = observed s"
  "resize_prop (fold (call_fn c x) gs s) = resize_prop s"
  "parentElement (fold (call_fn c x) gs s) = parentElement s"
  "watchers (fold (call_fn c x) gs s) = watchers s"
  "next_id (fold (call_fn c x) gs s) = next_id s"
proof -
  obtain rest where "fold (call_fn c x) gs s = s\<lparr>calls := calls s @ rest\<rparr>"
    using fold_call_fn_appends by blast
  then show "ticks (fold (call_fn c x) gs s) = ticks s"
    "factories (fold (call_fn c x) gs s) = factories s"
    "observed (fold (call_fn c x) gs s) = observed s"
    "resize_prop (fold (call_fn c x) gs s) = resize_prop s"
    "parentElement (fold (call_fn c x) gs s) = parentElement s"
    "watchers (fold (call_fn c x) gs s) = watchers s"
    "next_id (fold (call_fn c x) gs s) = next_id s"
    by simp_all
qed

lemma initEl_deferred_ticks: "ticks (initEl_deferred f x s) = ticks s"
  by (simp add: initEl_deferred_def Let_def fold_call_fn_frame observe_def split: option.splits)

lemma initEl_deferred_parentElement: "parentElement (initEl_deferred f x s) = parentElement s"
  by (simp add: initEl_deferred_def Let_def fold_call_fn_frame observe_def split: option.splits)

lemma initEl_deferred_bindings:
  "bindings g (initEl_deferred f x s)
     = (if g = f \<and> factories s f \<noteq> None
        then parented_bindings f s @ [\<lparr>el = x, chart = next_id s\<rparr>]
        else bindings g s)"
  by (simp add: initEl_deferred_def Let_def bindings_def parented_bindings_def fold_call_fn_frame
      observe_def live_charts_def removeInvalidChart_def split: option.splits)

lemma initEl_deferred_factory:
  "factories (initEl_deferred f x s) g
     = (if g = f
        then map_option
          (\<lambda>F. (removeInvalidChart (parentElement s) F)
             \<lparr>arrays := (arrays (removeInvalidChart (parentElement s) F))
                (charts (removeInvalidChart (parentElement s) F) :=
                   arrays (removeInvalidChart (parentElement s) F)
                     (charts (removeInvalidChart (parentElement s) F))
                   @ [\<lparr>el = x, chart = next_id s\<rparr>])\<rparr>)
          (factories s f)
        else factories s g)"
  by (simp add: initEl_deferred_def Let_def fold_call_fn_frame observe_def split: option.splits)


lemma run_watcher_frame:
  "ticks (run_watcher h s) = ticks s"
  "watchers (run_watcher h s) = watchers s"
  "observed (run_watcher h s) = observed s"
  "init_callbacks g (run_watcher h s) = init_callbacks g s"
  by (simp_all add: run_watcher_def setOption_frame setOption_init_callbacks Let_def
      split: option.splits watcher.splits)

lemma filter_self: "\<exists>P. xs = filter P xs"
  by (rule exI [of _ "\<lambda>_. True"]) simp

lemma run_watcher_bindings: "\<exists>P. bindings f (run_watcher h s) = filter P (bindings f s)"
proof (cases "watchers s h")
  case None
  then show ?thesis by (simp add: run_watcher_def filter_self)
next
  case (Some w)
  show ?thesis
  proof (cases w)
    case (DataWatcher g tr src)
    then show ?thesis using Some
      by (cases "f = g")
        (auto simp: run_watcher_def setOption_bindings parented_bindings_def filter_self)
  next
    case (OptsWatcher g src)
    then show ?thesis using Some
      by (cases "f = g")
        (auto simp: run_watcher_def setOption_bindings parented_bindings_def filter_self)
  next
    case (PostEffect g tr p)
    then show ?thesis using Some
      by (cases "f = g"; cases "snd (props s p)")
        (auto simp: run_watcher_def setOption_bindings setOption_frame parented_bindings_def
          Let_def filter_self)
  qed
qed

lemma flush_job_frame:
  "ticks (flush_job h s) = ticks s"
  "watchers (flush_job h s) = watchers s"
  "observed (flush_job h s) = observed s"
  by (simp_all add: flush_job_def run_watcher_frame)


lemma flush_job_bindings: "\<exists>P. bindings f (flush_job h s) = filter P (bindings f s)"
proof (cases "queued s h")
  case True
  have "bindings f (s\<lparr>queued := (queued s)(h := False)\<rparr>) = bindings f s"
    by (simp add: bindings_def)
  then show ?thesis
    using True run_watcher_bindings [of f h "s\<lparr>queued := (queued s)(h := False)\<rparr>"]
    by (simp add: flush_job_def)
next
  case False
  then show ?thesis by (simp add: flush_job_def filter_self)
qed

lemma trigger_frame:
  "ticks (trigger sub s) = ticks s"
  "watchers (trigger sub s) = watchers s"
  "observed (trigger sub s) = observed s"
  "factories (trigger sub s) = factories s"
  "calls (trigger sub s) = calls s"
  "parentElement (trigger sub s) = parentElement s"
  by (simp_all add: trigger_def)

lemma resize_callback_frame:
  "resize_callback ts s = Inr s' \<or> resize_callback ts s = Inl (e, s') \<Longrightarrow>
   factories s' = factories s \<and> ticks s' = ticks s"
  by (induction ts arbitrary: s) (auto split: option.splits)

lemma deliver_resize_frame:
  "factories (deliver_resize ts s) = factories s" "ticks (deliver_resize ts s) = ticks s"
  using resize_callback_frame [of "filter (\<lambda>t. t \<in> set (observed s)) ts" s]
  by (auto simp: deliver_resize_def split: sum.splits prod.splits)

lemma createChartEl_bindings:
  "bindings f (snd (createChartEl code dat op s))
     = (if f = Suc (next_id s) then [] else bindings f s)"
  "ticks (snd (createChartEl code dat op s)) = ticks s"
  by (auto simp: createChartEl_def createChart_def onInit_def watch_def bindings_def
      live_charts_def Let_def split: option.splits)

lemma setup_bindings:
  "bindings f (snd (createChartComp_setup code p s))
     = (if f = Suc (next_id s) then [] else bindings f s)"
  "ticks (snd (createChartComp_setup code p s)) = ticks s"
  by (auto simp: createChartComp_setup_def createChart_def onInit_def watchPostEffect_def
      bindings_def live_charts_def Let_def split: option.splits)

lemma createChartEl_registers_watchers:
  "Watchs (snd (createChartEl code dat op s))
     = Watchs s @ (next_id s + 3) # (case op of None \<Rightarrow> [] | Some src \<Rightarrow> [next_id s + 4])"
  "watchers (snd (createChartEl code dat op s)) (next_id s + 3)
     = Some (DataWatcher (Suc (next_id s)) (snd code) dat)"
  "op = Some src \<Longrightarrow>
   watchers (snd (createChartEl code dat op s)) (next_id s + 4)
     = Some (OptsWatcher (Suc (next_id s)) src)"
  by (simp_all add: createChartEl_def createChart_def onInit_def watch_def Let_def
      split: option.splits)

subsection \<open>The document's tree\<close>

lemma in_tree_wrapper_removed:
  "in_tree (parentElement (run wrapper_removed scope1)) 10 x \<Longrightarrow> x = 10"
proof (induction rule: in_tree.induct)
  case root
  show ?case by simp
next
  case (child x y)
  then show ?case by (simp add: scope_defs split: if_splits)
qed

lemma in_tree_before_removal:
  "in_tree (parentElement scope2) 10 51"
proof -
  have "in_tree (parentElement scope2) 10 40"
    by (rule in_tree.child [of _ _ 10]) (simp_all add: scope_defs in_tree.root)
  then show ?thesis
    by (rule in_tree.child [of _ _ 40, rotated]) (simp add: scope_defs)
qed

subsection \<open>setOption\<close>

lemma calls_for_entry:
  "distinct (map chart xs) \<Longrightarrow> b \<in> set xs \<Longrightarrow>
   filter (\<lambda>k. call_target k = Some (chart b)) (map (\<lambda>b. ESetOption (chart b) v) (filter P xs))
     = (if P b then [ESetOption (chart b) v] else [])"
proof (induction xs)
  case Nil
  then show ?case by simp
next
  case (Cons a xs)
  have fresh: "chart a \<notin> set (map chart xs)"
    using Cons.prems(1) by simp
  have none: "filter (\<lambda>k. call_target k = Some (chart a))
                (map (\<lambda>b. ESetOption (chart b) v) (filter P xs)) = []"
  proof -
    have "chart x \<noteq> chart a" if "x \<in> set xs" for x
      using fresh that by (metis image_eqI set_map)
    then show ?thesis by (simp add: filter_empty_conv)
  qed
  show ?case
  proof (cases "b = a")
    case True
    then show ?thesis using none by simp
  next
    case False
    then have bx: "b \<in> set xs"
      using Cons.prems by simp
    then have "chart b \<noteq> chart a"
      using fresh by (metis image_eqI set_map)
    then show ?thesis using Cons bx by simp
  qed
qed

text \<open>
  C5, as the code has it. \<^verbatim>\<open>setOption(options)\<close> on a factory first replaces the
  binding list by its entries whose element has a parent element (\<^verbatim>\<open>el.parentElement\<close>
  is not null), then calls the engine's \<^verbatim>\<open>setOption\<close> with exactly \<open>options\<close> once for
  each remaining entry, on the entry's instance and in list order, and makes no other
  call. When the instances of the list are pairwise different, the calls addressed to the
  instance of a remaining entry are that one call, and no call is addressed to the
  instance of an entry that was filtered out.
\<close>

theorem setOption_purges_then_applies:
  assumes "factories s f = Some F"
  shows "\<exists>F'. factories (setOption f v s) f = Some F'
           \<and> live_charts F' = filter (\<lambda>b. parentElement s (el b) \<noteq> None) (live_charts F)
           \<and> calls (setOption f v s)
               = calls s @ map (\<lambda>b. ESetOption (chart b) v) (live_charts F')
           \<and> (distinct (map chart (live_charts F)) \<longrightarrow>
                (\<forall>b \<in> set (live_charts F).
                   filter (\<lambda>k. call_target k = Some (chart b)) (new_calls s (setOption f v s))
                     = (if parentElement s (el b) \<noteq> None then [ESetOption (chart b) v] else [])))"
proof -
  let ?F' = "removeInvalidChart (parentElement s) F"
  have a: "factories (setOption f v s) f = Some ?F'"
    using assms by (simp add: setOption_def Let_def)
  have b: "live_charts ?F' = filter (\<lambda>b. parentElement s (el b) \<noteq> None) (live_charts F)"
    by (rule removeInvalidChart_live)
  have c: "calls (setOption f v s) = calls s @ map (\<lambda>b. ESetOption (chart b) v) (live_charts ?F')"
    using assms by (simp add: setOption_def Let_def)
  have d: "filter (\<lambda>k. call_target k = Some (chart b)) (new_calls s (setOption f v s))
             = (if parentElement s (el b) \<noteq> None then [ESetOption (chart b) v] else [])"
    if "distinct (map chart (live_charts F))" "b \<in> set (live_charts F)" for b
    using calls_for_entry [OF that, of v "\<lambda>b. parentElement s (el b) \<noteq> None"]
    by (simp add: c b new_calls_def)
  show ?thesis using a b c d by blast
qed

theorem setOption_purges_then_applies_witness:
  "bindings 1 scope2 = [\<lparr>el = 50, chart = 5\<rparr>, \<lparr>el = 51, chart = 6\<rparr>]
   \<and> parentElement scope2 50 = None
   \<and> parentElement scope2 51 = Some 40
   \<and> bindings 1 (setOption 1 7 scope2) = [\<lparr>el = 51, chart = 6\<rparr>]
   \<and> new_calls scope2 (setOption 1 7 scope2) = [ESetOption 6 7]
   \<and> filter (\<lambda>k. call_target k = Some 5) (new_calls scope2 (setOption 1 7 scope2)) = []
   \<and> filter (\<lambda>k. call_target k = Some 6) (new_calls scope2 (setOption 1 7 scope2)) = [ESetOption 6 7]"
  using setOption_purges_then_applies [of scope2 1 "the (factories scope2 1)" 7]
  by (simp add: scope_defs)

text \<open>
  C5 as stated fails. In \<open>scope2\<close> element 51 is in the document's tree. After
  \<open>wrapper_removed\<close> the elements 50 and 51 have left the tree with their wrapper, and the
  host has called \<^verbatim>\<open>initEl\<close> with null; they still have the wrapper as their parent, so
  \<^verbatim>\<open>setOption\<close> filters neither out and calls the engine for both.
\<close>

theorem detached_with_wrapper_counterexample:
  "\<not> in_tree (parentElement (run wrapper_removed scope1)) 10 50
   \<and> \<not> in_tree (parentElement (run wrapper_removed scope1)) 10 51
   \<and> bindings 1 (setOption 1 7 (run wrapper_removed scope1))
        = [\<lparr>el = 50, chart = 5\<rparr>, \<lparr>el = 51, chart = 6\<rparr>]
   \<and> new_calls (run wrapper_removed scope1) (setOption 1 7 (run wrapper_removed scope1))
        = [ESetOption 5 7, ESetOption 6 7]"
proof -
  have "\<not> in_tree (parentElement (run wrapper_removed scope1)) 10 50"
       "\<not> in_tree (parentElement (run wrapper_removed scope1)) 10 51"
    using in_tree_wrapper_removed by fastforce+
  moreover have "bindings 1 (setOption 1 7 (run wrapper_removed scope1))
        = [\<lparr>el = 50, chart = 5\<rparr>, \<lparr>el = 51, chart = 6\<rparr>]"
      "new_calls (run wrapper_removed scope1) (setOption 1 7 (run wrapper_removed scope1))
        = [ESetOption 5 7, ESetOption 6 7]"
    by (simp_all add: scope_defs)
  ultimately show ?thesis by simp
qed

subsection \<open>onInit\<close>






subsection \<open>initEl\<close>

text \<open>
  C6. \<^verbatim>\<open>initEl\<close> called with an element that has no entry in the factory's list only
  queues its callback for the next tick. When the host runs that callback, the binding
  list becomes its entries whose element has a parent followed by the new entry (so the
  purge comes before the push), and the calls made are, in this order: the creation of
  one instance from the element, the observation of the element, the application of the
  baseline options to the new instance, and the registered init callbacks, each called
  once with the new instance and the element, in registration order. The element's
  \<^verbatim>\<open>__resize\<close> then resizes the new instance.
\<close>

theorem attach_is_deferred_then_initialises:
  assumes "factories s f = Some F"
    and "\<not> list_ex (\<lambda>b. el b = x) (live_charts F)"
    and "ticks t = (f, x) # queue"
    and "factories t f = Some G"
    and "opts G = Some v"
  shows "initEl f (Some x) s = s\<lparr>ticks := ticks s @ [(f, x)]\<rparr>
       \<and> bindings f (run_tick t) = parented_bindings f t @ [\<lparr>el = x, chart = next_id t\<rparr>]
       \<and> x \<in> set (observed (run_tick t))
       \<and> resize_prop (run_tick t) x = Some (next_id t)
       \<and> ticks (run_tick t) = queue
       \<and> (\<exists>rest. calls (run_tick t)
             = calls t @ [EInit x (next_id t), RObserve x, ESetOption (next_id t) v] @ rest
             \<and> filter fn_call rest = map (\<lambda>g. FnCall g (next_id t) x) (initList G))"
proof -
  let ?c = "next_id t"
  let ?G1 = "removeInvalidChart (parentElement t) G"
  let ?G2 = "?G1\<lparr>arrays := (arrays ?G1)(charts ?G1 := arrays ?G1 (charts ?G1) @ [\<lparr>el = x, chart = ?c\<rparr>])\<rparr>"
  let ?t0 = "t\<lparr>ticks := queue\<rparr>"
  let ?t5 = "(observe x (?t0\<lparr>next_id := Suc ?c, calls := calls t @ [EInit x ?c]\<rparr>))
               \<lparr>resize_prop := (resize_prop t)(x := Some ?c),
                factories := (factories t)(f := Some ?G2)\<rparr>
               \<lparr>calls := calls t @ [EInit x ?c, RObserve x, ESetOption ?c v]\<rparr>"
  have enq: "initEl f (Some x) s = s\<lparr>ticks := ticks s @ [(f, x)]\<rparr>"
    using assms(1,2) by (simp add: initEl_def)
  have step: "run_tick t = fold (call_fn ?c x) (initList G) ?t5"
    using assms(3,4,5)
    by (simp add: run_tick_def initEl_deferred_def Let_def observe_def removeInvalidChart_def)
  obtain rest where rest: "fold (call_fn ?c x) (initList G) ?t5 = ?t5\<lparr>calls := calls ?t5 @ rest\<rparr>"
      "filter fn_call rest = map (\<lambda>g. FnCall g ?c x) (initList G)"
    using fold_call_fn_appends by blast
  have r: "run_tick t = ?t5\<lparr>calls := calls ?t5 @ rest\<rparr>"
    using step rest(1) by simp
  have b: "bindings f (run_tick t) = parented_bindings f t @ [\<lparr>el = x, chart = ?c\<rparr>]"
    using assms(4)
    by (simp add: r bindings_def parented_bindings_def live_charts_def removeInvalidChart_def
        observe_def)
  have o: "x \<in> set (observed (run_tick t))"
    by (simp add: r observe_def)
  have p: "resize_prop (run_tick t) x = Some ?c"
    by (simp add: r observe_def)
  have q: "ticks (run_tick t) = queue"
    by (simp add: r observe_def)
  have c: "calls (run_tick t) = calls t @ [EInit x ?c, RObserve x, ESetOption ?c v] @ rest"
    by (simp add: r observe_def)
  show ?thesis using enq b o p q c rest(2) by blast
qed

theorem attach_is_deferred_then_initialises_witness:
  "ticks (initEl 1 (Some 50) scope1) = [(1, 50)]
   \<and> calls (initEl 1 (Some 50) scope1) = []
   \<and> bindings 1 (run_tick (initEl 1 (Some 50) scope1)) = [\<lparr>el = 50, chart = 5\<rparr>]
   \<and> observed (run_tick (initEl 1 (Some 50) scope1)) = [50]
   \<and> resize_prop (run_tick (initEl 1 (Some 50) scope1)) 50 = Some 5
   \<and> calls (run_tick (initEl 1 (Some 50) scope1))
        = [EInit 50 5, RObserve 50, ESetOption 5 100, FnCall 2 5 50, ESetOption 5 1, ESetOption 5 2]"
  using attach_is_deferred_then_initialises
    [of scope1 1 "the (factories scope1 1)" 50 "initEl 1 (Some 50) scope1" "[]"
        "the (factories scope1 1)" 100]
  by (simp add: scope_defs)

text \<open>
  C1. Element 50 is put in the wrapper and \<^verbatim>\<open>initEl\<close> is called twice with it before
  the host runs the deferred callbacks: the guard of line 103 finds no entry either time,
  both callbacks run, and the factory ends with two entries for element 50 and two
  instance creations. When the first deferred callback runs before the second call, the
  guard holds and there is one entry and one creation.
\<close>

theorem double_attach_before_tick_binds_twice:
  "bindings 1 (run double_attach scope1) = [\<lparr>el = 50, chart = 5\<rparr>, \<lparr>el = 50, chart = 6\<rparr>]
   \<and> filter init_call (calls (run double_attach scope1)) = [EInit 50 5, EInit 50 6]
   \<and> bindings 1 (run [SetParent 50 (Some 40), RefCallback 1 (Some 50), NextTick,
                       RefCallback 1 (Some 50), NextTick] scope1)
        = [\<lparr>el = 50, chart = 5\<rparr>]
   \<and> filter init_call (calls (run [SetParent 50 (Some 40), RefCallback 1 (Some 50), NextTick,
                                    RefCallback 1 (Some 50), NextTick] scope1))
        = [EInit 50 5]"
  by (simp add: scope_defs)

subsection \<open>The payload watcher\<close>

text \<open>
  C8. Two things keep the payload watcher of \<^verbatim>\<open>createChartEl\<close> from doing what the
  claim says. The \<^verbatim>\<open>charts\<close> its callback hands to the transform is the array the
  factory returned, which stays empty: in \<open>scope2\<close>, where the factory has the bindings
  of the elements 50 and 51, writing the payload 5 makes the callback apply the
  transform of 5 and no charts, which is 5, where the transform of 5 and the bindings is
  25. And the watcher is subscribed to what \<^verbatim>\<open>() => data\<close> returns, which for a getter
  source is the getter itself: in \<open>scope4\<close> writing the ref the getter reads changes the
  payload from 1 to 5, the watcher's job is never queued, and nothing is applied to the
  instance 4 of the bound element.
\<close>

theorem payload_watcher_stale_charts_and_getter:
  "new_calls scope2 (run [SetPayload 0 5, Notify 3] scope2) = [ESetOption 6 5]
   \<and> snd template0 5 (bindings 1 scope2) = 25
   \<and> snd template0 5 (parented_bindings 1 scope2) = 15
   \<and> watchers scope4 3 = Some (DataWatcher 1 (snd template0) (Getter (\<lambda>store. store 0)))
   \<and> bindings 1 scope4 = [\<lparr>el = 50, chart = 4\<rparr>]
   \<and> toValue (payload_refs scope4) (Getter (\<lambda>store. store 0)) = 1
   \<and> toValue (payload_refs (run [SetPayload 0 5] scope4)) (Getter (\<lambda>store. store 0)) = 5
   \<and> queued (run [SetPayload 0 5] scope4) 3 = False
   \<and> new_calls scope4 (run [SetPayload 0 5, Notify 3] scope4) = []"
  by (simp add: scope_defs)

subsection \<open>The charts handed to the transform\<close>

lemma returned_empty_remove:
  "returned_empty F \<Longrightarrow> returned_empty (removeInvalidChart par F)"
  by (simp add: returned_empty_def returned_charts_def removeInvalidChart_def)

lemma returned_empty_push:
  "returned_empty F \<Longrightarrow>
   returned_empty ((removeInvalidChart par F)
     \<lparr>arrays := (arrays (removeInvalidChart par F))
        (charts (removeInvalidChart par F) :=
           arrays (removeInvalidChart par F) (charts (removeInvalidChart par F)) @ [b])\<rparr>)"
  by (simp add: returned_empty_def returned_charts_def removeInvalidChart_def)

lemma all_returned_empty_setOption:
  "all_returned_empty s \<Longrightarrow> all_returned_empty (setOption f v s)"
  unfolding all_returned_empty_def
  by (auto simp: setOption_factory returned_empty_remove split: if_splits)

lemma all_returned_empty_run_watcher:
  "all_returned_empty s \<Longrightarrow> all_returned_empty (run_watcher h s)"
  by (simp add: run_watcher_def all_returned_empty_setOption Let_def
      split: option.splits watcher.splits)

lemma all_returned_empty_flush_job:
  assumes "all_returned_empty s"
  shows "all_returned_empty (flush_job h s)"
proof -
  have "all_returned_empty (s\<lparr>queued := (queued s)(h := False)\<rparr>)"
    using assms by (simp add: all_returned_empty_def)
  then show ?thesis
    using assms by (simp add: flush_job_def all_returned_empty_run_watcher)
qed

lemma all_returned_empty_deferred:
  "all_returned_empty s \<Longrightarrow> all_returned_empty (initEl_deferred f x s)"
  unfolding all_returned_empty_def
  by (auto simp: initEl_deferred_factory returned_empty_push split: if_splits)

lemma all_returned_empty_createChartEl:
  "all_returned_empty s \<Longrightarrow> all_returned_empty (snd (createChartEl code dat op s))"
  unfolding all_returned_empty_def
  by (auto simp: createChartEl_def createChart_def onInit_def watch_def Let_def
      returned_empty_def returned_charts_def split: option.splits if_splits)

lemma all_returned_empty_setup:
  "all_returned_empty s \<Longrightarrow> all_returned_empty (snd (createChartComp_setup code p s))"
  unfolding all_returned_empty_def
  by (auto simp: createChartComp_setup_def createChart_def onInit_def watchPostEffect_def Let_def
      returned_empty_def returned_charts_def split: option.splits if_splits)

lemma all_returned_empty_step:
  assumes "all_returned_empty s"
  shows "all_returned_empty (step ev s)"
proof (cases ev)
  case (CreateChartEl code dat op)
  then show ?thesis using assms by (simp add: all_returned_empty_createChartEl)
next
  case (SetupComp code p)
  then show ?thesis using assms by (simp add: all_returned_empty_setup)
next
  case (RefCallback f e)
  then show ?thesis using assms
    by (simp add: all_returned_empty_def initEl_def split: option.splits)
next
  case NextTick
  show ?thesis
  proof (cases "ticks s")
    case Nil
    then show ?thesis using assms NextTick by (simp add: run_tick_def)
  next
    case (Cons fx rest)
    have "all_returned_empty (s\<lparr>ticks := rest\<rparr>)"
      using assms by (simp add: all_returned_empty_def)
    then show ?thesis
      using NextTick Cons
      by (simp add: run_tick_def all_returned_empty_deferred split: prod.splits)
  qed
next
  case (Notify h)
  then show ?thesis using assms by (simp add: all_returned_empty_flush_job)
next
  case (ResizeBatch ts)
  then show ?thesis using assms by (simp add: all_returned_empty_def deliver_resize_frame)
next
  case Unmounted
  then show ?thesis using assms by (simp add: all_returned_empty_def unmounted_def)
qed (use assms in \<open>simp_all add: all_returned_empty_def trigger_frame\<close>)

lemma all_returned_empty_run:
  "all_returned_empty s \<Longrightarrow> all_returned_empty (run evs s)"
  by (induction evs arbitrary: s) (simp_all add: all_returned_empty_step)

text \<open>
  C9. The \<^verbatim>\<open>charts\<close> the closures of \<^verbatim>\<open>createChartEl\<close> and of \<^verbatim>\<open>setup\<close> hand to the
  transform is the array the factory held when \<^verbatim>\<open>createChart\<close> returned.
  \<^verbatim>\<open>removeInvalidChart\<close> rebinds the factory's variable to a new array before anything is
  pushed, so in every state a scope can reach that array is empty, whatever the binding
  list holds: in \<open>scope2\<close> the binding list has two entries, the captured array none, and
  when the payload ref is written the payload watcher applies the transform of the
  payload 1 and no charts, which is 1.
\<close>

theorem captured_charts_stay_empty:
  "captured_charts f (run evs (useCharts par ps os prs)) = []
   \<and> bindings 1 scope2 = [\<lparr>el = 50, chart = 5\<rparr>, \<lparr>el = 51, chart = 6\<rparr>]
   \<and> captured_charts 1 scope2 = []
   \<and> new_calls scope2 (run [SetPayload 0 1, Notify 3] scope2) = [ESetOption 6 1]"
proof -
  have "all_returned_empty (useCharts par ps os prs)"
    by (simp add: all_returned_empty_def useCharts_def)
  then have "all_returned_empty (run evs (useCharts par ps os prs))"
    by (rule all_returned_empty_run)
  then have "captured_charts f (run evs (useCharts par ps os prs)) = []"
    by (simp add: all_returned_empty_def captured_charts_def returned_empty_def
        split: option.splits)
  moreover have "bindings 1 scope2 = [\<lparr>el = 50, chart = 5\<rparr>, \<lparr>el = 51, chart = 6\<rparr>]"
      "captured_charts 1 scope2 = []"
      "new_calls scope2 (run [SetPayload 0 1, Notify 3] scope2) = [ESetOption 6 1]"
    by (simp_all add: scope_defs)
  ultimately show ?thesis by simp
qed

subsection \<open>Unmounting\<close>

lemma silenced_unmounted: "silenced (Watchs s) (unmounted s)"
  by (simp add: silenced_def unmounted_def list_all_iff)

lemma silenced_preserved:
  assumes "silenced W s" and "observed s' = observed s"
    and "\<And>h w. watchers s' h = Some w \<Longrightarrow>
           watchers s h = Some w \<or> bindings (watcher_factory w) s' = []"
    and "\<And>f. bindings f s = [] \<Longrightarrow> bindings f s' = []"
  shows "silenced W s'"
proof -
  have "bindings (watcher_factory w) s' = []" if "h \<in> set W" "watchers s' h = Some w" for h w
  proof -
    from assms(3) [OF that(2)] show ?thesis
    proof
      assume "watchers s h = Some w"
      then have "bindings (watcher_factory w) s = []"
        using assms(1) that(1) by (auto simp: silenced_def list_all_iff)
      then show ?thesis by (rule assms(4))
    qed
  qed
  then show ?thesis
    using assms(1,2) by (auto simp: silenced_def list_all_iff split: option.splits)
qed

lemma run_watcher_no_bindings:
  assumes "watchers s h = Some w" and "bindings (watcher_factory w) s = []"
  shows "calls (run_watcher h s) = calls s"
proof (cases w)
  case (DataWatcher f tr src)
  then show ?thesis using assms by (simp add: run_watcher_def setOption_no_bindings)
next
  case (OptsWatcher f src)
  then show ?thesis using assms by (simp add: run_watcher_def setOption_no_bindings)
next
  case (PostEffect f tr p)
  have "bindings f (setOption f v s) = []" for v
    using assms PostEffect by (simp add: setOption_bindings parented_bindings_def)
  then show ?thesis
    using assms PostEffect
    by (simp add: run_watcher_def setOption_no_bindings Let_def split: option.splits)
qed

lemma flush_job_silenced:
  assumes "silenced W s" and "h \<in> set W"
  shows "calls (flush_job h s) = calls s"
proof (cases "queued s h")
  case False
  then show ?thesis by (simp add: flush_job_def)
next
  case True
  let ?s0 = "s\<lparr>queued := (queued s)(h := False)\<rparr>"
  show ?thesis
  proof (cases "watchers s h")
    case None
    then show ?thesis using True by (simp add: flush_job_def run_watcher_def)
  next
    case (Some w)
    then have "bindings (watcher_factory w) s = []"
      using assms by (auto simp: silenced_def list_all_iff)
    then have "bindings (watcher_factory w) ?s0 = []"
      by (simp add: bindings_def)
    moreover have "watchers ?s0 h = Some w"
      using Some by simp
    ultimately have "calls (run_watcher h ?s0) = calls ?s0"
      by (rule run_watcher_no_bindings [rotated])
    then show ?thesis using True by (simp add: flush_job_def)
  qed
qed

lemma createChartEl_watchers:
  "watchers (snd (createChartEl code dat op s)) h = Some w \<Longrightarrow>
   watchers s h = Some w \<or> watcher_factory w = Suc (next_id s)"
  by (auto simp: createChartEl_def createChart_def onInit_def watch_def Let_def
      split: option.splits if_splits)

lemma setup_watchers:
  "watchers (snd (createChartComp_setup code p s)) h = Some w \<Longrightarrow>
   watchers s h = Some w \<or> watcher_factory w = Suc (next_id s)"
  by (auto simp: createChartComp_setup_def createChart_def onInit_def watchPostEffect_def Let_def
      split: option.splits if_splits)

lemma create_frame:
  "observed (snd (createChartEl code dat op s)) = observed s"
  "calls (snd (createChartEl code dat op s)) = calls s"
  "observed (snd (createChartComp_setup code p s)) = observed s"
  "calls (snd (createChartComp_setup code p s)) = calls s"
  by (simp_all add: createChartEl_def createChartComp_setup_def createChart_def onInit_def
      watch_def watchPostEffect_def Let_def split: option.splits)

lemma initEl_frame:
  "observed (initEl f e s) = observed s"
  "calls (initEl f e s) = calls s"
  "watchers (initEl f e s) = watchers s"
  "factories (initEl f e s) = factories s"
  by (simp_all add: initEl_def split: option.splits)

lemma silenced_step:
  assumes "silenced W s" and "quiet W ev"
  shows "silenced W (step ev s) \<and> calls (step ev s) = calls s"
proof (cases ev)
  case (CreateChartEl code dat op)
  have "silenced W (snd (createChartEl code dat op s))"
  proof (rule silenced_preserved [OF assms(1)])
    show "watchers s h = Some w \<or> bindings (watcher_factory w) (snd (createChartEl code dat op s)) = []"
      if "watchers (snd (createChartEl code dat op s)) h = Some w" for h w
      using createChartEl_watchers [OF that] by (auto simp: createChartEl_bindings)
  qed (simp_all add: create_frame createChartEl_bindings)
  then show ?thesis using CreateChartEl by (simp add: create_frame)
next
  case (SetupComp code p)
  have "silenced W (snd (createChartComp_setup code p s))"
  proof (rule silenced_preserved [OF assms(1)])
    show "watchers s h = Some w \<or> bindings (watcher_factory w) (snd (createChartComp_setup code p s)) = []"
      if "watchers (snd (createChartComp_setup code p s)) h = Some w" for h w
      using setup_watchers [OF that] by (auto simp: setup_bindings)
  qed (simp_all add: create_frame setup_bindings)
  then show ?thesis using SetupComp by (simp add: create_frame)
next
  case (RefCallback f e)
  have "silenced W (initEl f e s)"
    by (rule silenced_preserved [OF assms(1)]) (simp_all add: initEl_frame bindings_def)
  then show ?thesis using RefCallback by (simp add: initEl_frame)
next
  case NextTick
  then show ?thesis using assms(2) by simp
next
  case (Notify h)
  then have h: "h \<in> set W" using assms(2) by simp
  have "silenced W (flush_job h s)"
  proof (rule silenced_preserved [OF assms(1)])
    show "bindings f (flush_job h s) = []" if "bindings f s = []" for f
      using flush_job_bindings [of f h s] that by auto
  qed (simp_all add: flush_job_frame)
  then show ?thesis using Notify flush_job_silenced [OF assms(1) h] by simp
next
  case (ResizeBatch ts)
  then show ?thesis using assms(1) by (simp add: silenced_def deliver_resize_def)
next
  case Unmounted
  have "observed s = []"
    using assms(1) by (simp add: silenced_def)
  then have "silenced W (unmounted s)"
    by (intro silenced_preserved [OF assms(1)])
      (auto simp: unmounted_def bindings_def split: if_splits)
  then show ?thesis using Unmounted by (simp add: unmounted_def)
next
  case (SetParent x y)
  have "silenced W (s\<lparr>parentElement := (parentElement s)(x := y)\<rparr>)"
    by (rule silenced_preserved [OF assms(1)]) (simp_all add: bindings_def)
  then show ?thesis using SetParent by simp
next
  case (SetPayload r v)
  have "silenced W (step (SetPayload r v) s)"
    by (rule silenced_preserved [OF assms(1)]) (simp_all add: trigger_frame bindings_def)
  then show ?thesis using SetPayload by (simp add: trigger_frame)
next
  case (SetOptions r v)
  have "silenced W (step (SetOptions r v) s)"
    by (rule silenced_preserved [OF assms(1)]) (simp_all add: trigger_frame bindings_def)
  then show ?thesis using SetOptions by (simp add: trigger_frame)
next
  case (SetProps p v)
  have "silenced W (step (SetProps p v) s)"
    by (rule silenced_preserved [OF assms(1)]) (simp_all add: trigger_frame bindings_def)
  then show ?thesis using SetProps by (simp add: trigger_frame)
qed

lemma silenced_run:
  "silenced W s \<Longrightarrow> list_all (quiet W) evs \<Longrightarrow> calls (run evs s) = calls s"
proof (induction evs arbitrary: s)
  case Nil
  then show ?case by simp
next
  case (Cons ev evs)
  then have "silenced W (step ev s)" "calls (step ev s) = calls s"
    using silenced_step [of W s ev] by simp_all
  then show ?case using Cons by simp
qed

text \<open>
  C3, as the code has it. The \<^verbatim>\<open>onUnmounted\<close> hook stops the watchers pushed to
  \<^verbatim>\<open>Watchs\<close> and disconnects the resize observer, and makes no call itself. After it,
  whatever else happens, as long as no deferred callback of \<^verbatim>\<open>initEl\<close> runs and the host
  runs no job of a watcher that was not in \<^verbatim>\<open>Watchs\<close> when the scope was unmounted, no
  call is made, into the engine or elsewhere: the trace stays what it was before
  unmounting. The callbacks check nothing themselves; what keeps them silent is that the
  platform reports observed targets only and the host runs running watchers only.
\<close>

theorem no_calls_after_unmounted:
  assumes "list_all (quiet (Watchs s)) evs"
  shows "calls (run evs (unmounted s)) = calls s"
proof -
  have "calls (run evs (unmounted s)) = calls (unmounted s)"
    using assms by (rule silenced_run [OF silenced_unmounted])
  then show ?thesis by (simp add: unmounted_def)
qed

theorem no_calls_after_unmounted_witness:
  "list_all (quiet (Watchs scope2))
     [SetPayload 0 5, Notify 3, SetOptions 0 9, Notify 4, SetParent 50 (Some 40),
      RefCallback 1 (Some 52), CreateChartEl template0 (Ref 0) None, ResizeBatch [50, 51]]
   \<and> calls (run [SetPayload 0 5, Notify 3, SetOptions 0 9, Notify 4, SetParent 50 (Some 40),
                  RefCallback 1 (Some 52), CreateChartEl template0 (Ref 0) None,
                  ResizeBatch [50, 51]] (unmounted scope2)) = calls scope2
   \<and> new_calls scope2 (run [SetPayload 0 5, Notify 3, SetOptions 0 9, Notify 4,
                             SetParent 50 (Some 40), RefCallback 1 (Some 52),
                             CreateChartEl template0 (Ref 0) None, ResizeBatch [50, 51]] scope2)
        = [ESetOption 6 5, ESetOption 6 9, EResize 5, EResize 6]"
  using no_calls_after_unmounted
    [of scope2 "[SetPayload 0 5, Notify 3, SetOptions 0 9, Notify 4, SetParent 50 (Some 40),
                 RefCallback 1 (Some 52), CreateChartEl template0 (Ref 0) None,
                 ResizeBatch [50, 51]]"]
  by (simp add: scope_defs)

text \<open>
  C3 as stated fails. In \<open>late_attach\<close> element 50 is handed to \<^verbatim>\<open>initEl\<close>, the scope is
  unmounted before the deferred callback runs, and the callback then runs: no call had
  been made when the scope was unmounted; the callback, which checks nothing, creates an
  instance, observes the element again and applies options; and the next batch of size
  changes resizes the instance.
\<close>

theorem calls_after_unmounted_counterexample:
  "calls (run [SetParent 50 (Some 40), RefCallback 1 (Some 50), Unmounted] scope1) = []
   \<and> calls (run late_attach scope1)
        = [EInit 50 5, RObserve 50, ESetOption 5 100, FnCall 2 5 50, ESetOption 5 1, ESetOption 5 2]
   \<and> new_calls (run late_attach scope1) (run (late_attach @ [ResizeBatch [50]]) scope1)
        = [EResize 5]
   \<and> filter engine_call
        (new_calls (run late_attach scope1) (run (late_attach @ [ResizeBatch [50]]) scope1)) \<noteq> []"
  by (simp add: scope_defs)

text \<open>
  C7, as the code has it. The \<^verbatim>\<open>onUnmounted\<close> hook aborts every controller in
  \<^verbatim>\<open>AbortSignals\<close>, stops every watcher in \<^verbatim>\<open>Watchs\<close> and disconnects the observer.
  The scope keeps no record of having been unmounted: \<^verbatim>\<open>createChart\<close> and
  \<^verbatim>\<open>createChartEl\<close> called afterwards push their controller and their watchers as
  before, and these are neither aborted nor stopped.
\<close>

theorem unmounted_cancels_what_was_registered:
  "list_all (aborted (unmounted s)) (AbortSignals s)
   \<and> list_all (\<lambda>h. watchers (unmounted s) h = None) (Watchs s)
   \<and> observed (unmounted s) = []
   \<and> AbortSignals (snd (createChart base (unmounted s))) = AbortSignals s @ [next_id s]
   \<and> \<not> aborted (snd (createChart base (unmounted s))) (next_id s)
   \<and> Watchs (snd (createChartEl code dat op (unmounted s)))
        = Watchs s @ (next_id s + 3) # (case op of None \<Rightarrow> [] | Some src \<Rightarrow> [next_id s + 4])
   \<and> watchers (snd (createChartEl code dat op (unmounted s))) (next_id s + 3)
        = Some (DataWatcher (Suc (next_id s)) (snd code) dat)"
proof -
  have a: "list_all (aborted (unmounted s)) (AbortSignals s)"
      "list_all (\<lambda>h. watchers (unmounted s) h = None) (Watchs s)"
      "observed (unmounted s) = []"
    by (simp_all add: unmounted_def list_all_iff)
  have b: "AbortSignals (snd (createChart base (unmounted s))) = AbortSignals s @ [next_id s]"
      "\<not> aborted (snd (createChart base (unmounted s))) (next_id s)"
    by (simp_all add: unmounted_def createChart_def Let_def)
  have n: "next_id (unmounted s) = next_id s" "Watchs (unmounted s) = Watchs s"
    by (simp_all add: unmounted_def)
  show ?thesis
    using a b createChartEl_registers_watchers(1,2) [of code dat op "unmounted s"]
    by (simp add: n cong: option.case_cong)
qed

text \<open>
  C7 as stated fails. After unmounting \<open>scope1\<close>, \<^verbatim>\<open>createChartEl\<close> neither fails nor
  does nothing: it registers the controller 5 and the watchers 8 and 9, which stay
  un-aborted and running, next to the controller 0 and the watchers 3 and 4 that
  unmounting has aborted and stopped.
\<close>

theorem registration_after_unmounted_counterexample:
  "AbortSignals (run [Unmounted, CreateChartEl template0 (Ref 0) (Some (Ref 0))] scope1) = [0, 5]
   \<and> map (aborted (run [Unmounted, CreateChartEl template0 (Ref 0) (Some (Ref 0))] scope1)) [0, 5]
        = [True, False]
   \<and> Watchs (run [Unmounted, CreateChartEl template0 (Ref 0) (Some (Ref 0))] scope1) = [3, 4, 8, 9]
   \<and> map (\<lambda>h. watchers (run [Unmounted, CreateChartEl template0 (Ref 0) (Some (Ref 0))] scope1) h
                 = None) [3, 4, 8, 9]
        = [True, True, False, False]"
  by (simp add: scope_defs)

subsection \<open>Order of the applications\<close>

text \<open>
  C4. In \<open>scope2\<close> the options ref is written (9), then the payload ref (5), and the host
  runs the two jobs in the order they were queued: the options 9 are applied to instance
  6 first and the transform's result 5 last, so the options do not win. With the writes
  in the other order the options are applied last. The other two paths fix the order in
  one function body: the init callback of \<^verbatim>\<open>createChartEl\<close> applies the transform's
  result 1 and then the options 2 to the new instance 5, and the post effect of the
  component in \<open>scope3\<close> applies the transform's result 4 and then the options 8.
\<close>

theorem options_written_first_lose:
  "new_calls scope2 (run [SetOptions 0 9, SetPayload 0 5, Notify 4, Notify 3] scope2)
     = [ESetOption 6 9, ESetOption 6 5]
   \<and> last (filter (\<lambda>k. call_target k = Some 6)
        (new_calls scope2 (run [SetOptions 0 9, SetPayload 0 5, Notify 4, Notify 3] scope2)))
     \<noteq> ESetOption 6 9
   \<and> new_calls scope2 (run [SetPayload 0 5, SetOptions 0 9, Notify 3, Notify 4] scope2)
     = [ESetOption 6 5, ESetOption 6 9]
   \<and> calls (run [SetParent 50 (Some 40), RefCallback 1 (Some 50), NextTick] scope1)
     = [EInit 50 5, RObserve 50, ESetOption 5 100, FnCall 2 5 50, ESetOption 5 1, ESetOption 5 2]
   \<and> new_calls scope3 (run [Notify 3] scope3) = [ESetOption 4 4, ESetOption 4 8]"
  by (simp add: scope_defs)

subsection \<open>The binding list\<close>

lemma no_double_filter:
  assumes "no_double s" and "ticks s' = ticks s"
    and "\<And>f. \<exists>P. bindings f s' = filter P (bindings f s)"
  shows "no_double s'"
proof -
  have d: "distinct (map el (bindings f s'))" for f
  proof -
    obtain P where "bindings f s' = filter P (bindings f s)" using assms(3) by blast
    then show ?thesis using assms(1) by (simp add: no_double_def distinct_map_filter)
  qed
  have t: "x \<notin> el ` set (bindings f s')" if "(f, x) \<in> set (ticks s')" for f x
  proof -
    obtain P where "bindings f s' = filter P (bindings f s)" using assms(3) by blast
    moreover have "x \<notin> el ` set (bindings f s)"
      using assms(1,2) that by (simp add: no_double_def)
    ultimately show ?thesis by auto
  qed
  show ?thesis using assms(1,2) d t by (simp add: no_double_def)
qed

lemma no_double_step:
  assumes "no_double s" and "guarded_event ev s"
  shows "no_double (step ev s)"
proof (cases ev)
  case (CreateChartEl code dat op)
  show ?thesis
    unfolding CreateChartEl step.simps
    by (rule no_double_filter [OF assms(1)])
      (auto simp: createChartEl_bindings filter_self intro: exI [of _ "\<lambda>_. False"])
next
  case (SetupComp code p)
  show ?thesis
    unfolding SetupComp step.simps
    by (rule no_double_filter [OF assms(1)])
      (auto simp: setup_bindings filter_self intro: exI [of _ "\<lambda>_. False"])
next
  case (RefCallback f e)
  show ?thesis
  proof (cases "initEl f e s = s")
    case True
    then show ?thesis using assms(1) RefCallback by simp
  next
    case False
    then obtain F x where fx: "factories s f = Some F" "e = Some x"
        "\<not> list_ex (\<lambda>b. el b = x) (live_charts F)"
        "initEl f e s = s\<lparr>ticks := ticks s @ [(f, x)]\<rparr>"
      by (auto simp: initEl_def split: option.splits if_splits)
    have nb: "x \<notin> el ` set (bindings f s)"
      using fx(1,3) by (auto simp: bindings_def list_ex_iff)
    have nt: "(f, x) \<notin> set (ticks s)"
      using assms(2) RefCallback fx(2) by simp
    have "no_double (s\<lparr>ticks := ticks s @ [(f, x)]\<rparr>)"
      using assms(1) nb nt by (auto simp: no_double_def bindings_def)
    then show ?thesis using RefCallback fx(4) by simp
  qed
next
  case NextTick
  show ?thesis
  proof (cases "ticks s")
    case Nil
    then show ?thesis using assms(1) NextTick by (simp add: run_tick_def)
  next
    case (Cons fx rest)
    obtain f x where fx: "fx = (f, x)" by (cases fx)
    let ?s0 = "s\<lparr>ticks := rest\<rparr>"
    have st: "step ev s = initEl_deferred f x ?s0"
      using NextTick Cons fx by (simp add: run_tick_def)
    have b0: "bindings g ?s0 = bindings g s" "parented_bindings g ?s0 = parented_bindings g s" for g
      by (simp_all add: bindings_def parented_bindings_def)
    have d: "distinct rest" "(f, x) \<notin> set rest"
      using assms(1) Cons fx by (simp_all add: no_double_def)
    have nb: "x \<notin> el ` set (bindings f s)"
      using assms(1) Cons fx by (simp add: no_double_def)
    have old: "y \<notin> el ` set (bindings g s)" if "(g, y) \<in> set rest" for g y
      using assms(1) Cons that by (simp add: no_double_def)
    have dd: "distinct (map el (bindings g s))" for g
      using assms(1) by (simp add: no_double_def)
    have 1: "distinct (map el (bindings g (step ev s)))" for g
      using dd [of g] dd [of f] nb
      by (auto simp: st initEl_deferred_bindings b0 parented_bindings_def distinct_map_filter)
    have 2: "y \<notin> el ` set (bindings g (step ev s))" if "(g, y) \<in> set rest" for g y
      using old [OF that] that d(2)
      by (auto simp: st initEl_deferred_bindings b0 parented_bindings_def)
    show ?thesis
      using d(1) 1 2 by (simp add: no_double_def st initEl_deferred_ticks)
  qed
next
  case (Notify h)
  show ?thesis
    unfolding Notify step.simps
    by (rule no_double_filter [OF assms(1) flush_job_frame(1) flush_job_bindings])
next
  case (ResizeBatch ts)
  then show ?thesis
    using assms(1) by (simp add: no_double_def bindings_def deliver_resize_frame)
next
  case Unmounted
  then show ?thesis
    using assms(1) by (simp add: no_double_def bindings_def unmounted_def)
qed (use assms(1) in \<open>simp_all add: no_double_def bindings_def trigger_frame\<close>)

lemma no_double_run:
  "no_double s \<Longrightarrow> guarded evs s \<Longrightarrow> no_double (run evs s)"
  by (induction evs arbitrary: s) (simp_all add: no_double_step)

lemma no_double_useCharts: "no_double (useCharts par ps os prs)"
  by (simp add: no_double_def useCharts_def bindings_def)

lemma length_le_with_parent:
  assumes "distinct (map el xs)" and "finite {x. par x \<noteq> None}"
    and "list_all (\<lambda>b. par (el b) \<noteq> None) xs"
  shows "length xs \<le> card {x. par x \<noteq> None}"
proof -
  have "length xs = card (el ` set xs)"
    using assms(1) by (metis distinct_card length_map set_map)
  also have "\<dots> \<le> card {x. par x \<noteq> None}"
    using assms(3) by (intro card_mono [OF assms(2)]) (auto simp: list_all_iff)
  finally show ?thesis .
qed

lemma run_tick_bindings:
  assumes "ticks s = (f, x) # queue"
  shows "bindings f (run_tick s)
           = (if factories s f \<noteq> None
              then parented_bindings f s @ [\<lparr>el = x, chart = next_id s\<rparr>] else [])"
    and "parentElement (run_tick s) = parentElement s"
proof -
  have b0: "bindings f (s\<lparr>ticks := queue\<rparr>) = bindings f s"
      "parented_bindings f (s\<lparr>ticks := queue\<rparr>) = parented_bindings f s"
    by (simp_all add: bindings_def parented_bindings_def)
  have none: "bindings f s = []" if "factories s f = None"
    using that by (simp add: bindings_def)
  have "run_tick s = initEl_deferred f x (s\<lparr>ticks := queue\<rparr>)"
    using assms by (simp add: run_tick_def)
  then show "bindings f (run_tick s)
           = (if factories s f \<noteq> None
              then parented_bindings f s @ [\<lparr>el = x, chart = next_id s\<rparr>] else [])"
    using none by (simp add: initEl_deferred_bindings b0)
  show "parentElement (run_tick s) = parentElement s"
    using assms by (simp add: run_tick_def initEl_deferred_parentElement)
qed

text \<open>
  C2, as the code has it. In every guarded run of a scope, that is, when \<^verbatim>\<open>initEl\<close> is
  never called with an element whose deferred callback for the same factory is still
  queued, no factory ever has two entries with the same element. When \<^verbatim>\<open>setOption\<close>
  has completed after such a run, and when a deferred callback of \<^verbatim>\<open>initEl\<close> has
  completed whose element has a parent element, every entry of the factory has an
  element with a parent element (\<^verbatim>\<open>el.parentElement\<close> is not null), and the number of
  entries is at most the number of elements that have a parent element.
\<close>

theorem bindings_distinct_when_guarded:
  assumes "s = run evs (useCharts par ps os prs)"
    and "guarded evs (useCharts par ps os prs)"
  shows "distinct (map el (bindings f s))
       \<and> list_all (\<lambda>b. parentElement s (el b) \<noteq> None) (bindings f (setOption f v s))
       \<and> (finite {x. parentElement s x \<noteq> None} \<longrightarrow>
            length (bindings f (setOption f v s)) \<le> card {x. parentElement s x \<noteq> None})
       \<and> (ticks s = (f, x) # queue \<and> parentElement s x \<noteq> None \<longrightarrow>
            distinct (map el (bindings f (run_tick s)))
            \<and> list_all (\<lambda>b. parentElement (run_tick s) (el b) \<noteq> None) (bindings f (run_tick s))
            \<and> (finite {x. parentElement (run_tick s) x \<noteq> None} \<longrightarrow>
                 length (bindings f (run_tick s))
                   \<le> card {x. parentElement (run_tick s) x \<noteq> None}))"
proof -
  have nd: "no_double s"
    unfolding assms(1) using no_double_run [OF no_double_useCharts assms(2)] .
  then have d: "distinct (map el (bindings f s))"
    by (simp add: no_double_def)
  have d1: "distinct (map el (bindings f (setOption f v s)))"
    using d by (simp add: setOption_bindings parented_bindings_def distinct_map_filter)
  have a: "list_all (\<lambda>b. parentElement s (el b) \<noteq> None) (bindings f (setOption f v s))"
    by (simp add: setOption_bindings parented_bindings_def list_all_iff)
  have c: "length (bindings f (setOption f v s)) \<le> card {x. parentElement s x \<noteq> None}"
    if "finite {x. parentElement s x \<noteq> None}"
    using length_le_with_parent [OF d1 that a] .
  have t: "distinct (map el (bindings f (run_tick s)))
           \<and> list_all (\<lambda>b. parentElement (run_tick s) (el b) \<noteq> None) (bindings f (run_tick s))
           \<and> (finite {x. parentElement (run_tick s) x \<noteq> None} \<longrightarrow>
                length (bindings f (run_tick s)) \<le> card {x. parentElement (run_tick s) x \<noteq> None})"
    if q: "ticks s = (f, x) # queue" and px: "parentElement s x \<noteq> None"
  proof -
    have "no_double (step NextTick s)"
      by (rule no_double_step [OF nd]) simp
    then have t1: "distinct (map el (bindings f (run_tick s)))"
      by (simp add: no_double_def)
    have t2: "list_all (\<lambda>b. parentElement (run_tick s) (el b) \<noteq> None) (bindings f (run_tick s))"
      using px
      by (auto simp: run_tick_bindings [OF q] parented_bindings_def list_all_iff)
    have t3: "length (bindings f (run_tick s)) \<le> card {x. parentElement (run_tick s) x \<noteq> None}"
      if "finite {x. parentElement (run_tick s) x \<noteq> None}"
      using length_le_with_parent [OF t1 that t2] .
    show ?thesis using t1 t2 t3 by blast
  qed
  show ?thesis using d a c t by blast
qed

theorem bindings_distinct_when_guarded_witness:
  "guarded (events1 @ events2) scope0
   \<and> bindings 1 (run (events1 @ events2) scope0)
        = [\<lparr>el = 50, chart = 5\<rparr>, \<lparr>el = 51, chart = 6\<rparr>]
   \<and> bindings 1 (setOption 1 7 (run (events1 @ events2) scope0)) = [\<lparr>el = 51, chart = 6\<rparr>]
   \<and> {x. parentElement (run (events1 @ events2) scope0) x \<noteq> None} = {40, 51}
   \<and> length (bindings 1 (setOption 1 7 (run (events1 @ events2) scope0)))
        \<le> card {x. parentElement (run (events1 @ events2) scope0) x \<noteq> None}
   \<and> ticks (run [SetParent 52 (Some 40), RefCallback 1 (Some 52)] scope2) = [(1, 52)]
   \<and> bindings 1 (run [SetParent 52 (Some 40), RefCallback 1 (Some 52), NextTick] scope2)
        = [\<lparr>el = 51, chart = 6\<rparr>, \<lparr>el = 52, chart = 7\<rparr>]
   \<and> {x. parentElement (run [SetParent 52 (Some 40), RefCallback 1 (Some 52), NextTick] scope2) x
            \<noteq> None} = {40, 51, 52}
   \<and> length (bindings 1 (run [SetParent 52 (Some 40), RefCallback 1 (Some 52), NextTick] scope2))
        \<le> card {x. parentElement (run [SetParent 52 (Some 40), RefCallback 1 (Some 52),
                                        NextTick] scope2) x \<noteq> None}"
proof -
  have g1: "guarded (events1 @ events2) scope0"
    by (simp add: scope_defs)
  have g2: "guarded (events1 @ events2 @ [SetParent 52 (Some 40), RefCallback 1 (Some 52)]) scope0"
    by (simp add: scope_defs)
  have r: "run (events1 @ events2 @ [SetParent 52 (Some 40), RefCallback 1 (Some 52)]) scope0
             = run [SetParent 52 (Some 40), RefCallback 1 (Some 52)] scope2"
    by (simp add: scope_defs)
  have e: "{x. parentElement (run (events1 @ events2) scope0) x \<noteq> None} = {40, 51}"
      "{x. parentElement (run [SetParent 52 (Some 40), RefCallback 1 (Some 52), NextTick] scope2) x
            \<noteq> None} = {40, 51, 52}"
    by (auto simp: scope_defs)
  have v: "bindings 1 (run (events1 @ events2) scope0)
             = [\<lparr>el = 50, chart = 5\<rparr>, \<lparr>el = 51, chart = 6\<rparr>]"
      "bindings 1 (setOption 1 7 (run (events1 @ events2) scope0)) = [\<lparr>el = 51, chart = 6\<rparr>]"
      "ticks (run [SetParent 52 (Some 40), RefCallback 1 (Some 52)] scope2) = [(1, 52)]"
      "bindings 1 (run [SetParent 52 (Some 40), RefCallback 1 (Some 52), NextTick] scope2)
         = [\<lparr>el = 51, chart = 6\<rparr>, \<lparr>el = 52, chart = 7\<rparr>]"
    by (simp_all add: scope_defs)
  have "length (bindings 1 (setOption 1 7 (run (events1 @ events2) scope0)))
          \<le> card {x. parentElement (run (events1 @ events2) scope0) x \<noteq> None}"
    using bindings_distinct_when_guarded
      [OF refl g1 [unfolded scope0_def], folded scope0_def, of 1 7] e(1)
    by simp
  moreover have "length (bindings 1 (run [SetParent 52 (Some 40), RefCallback 1 (Some 52),
                                          NextTick] scope2))
          \<le> card {x. parentElement (run [SetParent 52 (Some 40), RefCallback 1 (Some 52),
                                          NextTick] scope2) x \<noteq> None}"
    using bindings_distinct_when_guarded
      [OF r [symmetric, unfolded scope0_def] g2 [unfolded scope0_def], of 1 7 52 "[]"] v(3) e(2)
    by (simp add: scope_defs)
  ultimately show ?thesis using g1 e v by simp
qed

text \<open>
  C2 as stated fails, in three ways. After \<open>double_attach\<close> the factory has two entries
  for element 50. When element 50 is removed from its parent between the call of
  \<^verbatim>\<open>initEl\<close> and the deferred callback, the callback still pushes an entry for it: one
  entry, no element with a parent but the wrapper. And after \<open>wrapper_removed\<close> and a
  \<^verbatim>\<open>setOption\<close> the factory keeps its two entries although only the document's root is
  left in the document's tree.
\<close>

theorem bindings_invariant_counterexample:
  "\<not> distinct (map el (bindings 1 (run double_attach scope1)))
   \<and> bindings 1 (run [SetParent 50 (Some 40), RefCallback 1 (Some 50), SetParent 50 None,
                       NextTick] scope1) = [\<lparr>el = 50, chart = 5\<rparr>]
   \<and> parentElement (run [SetParent 50 (Some 40), RefCallback 1 (Some 50), SetParent 50 None,
                          NextTick] scope1) 50 = None
   \<and> \<not> length (bindings 1 (setOption 1 7 (run wrapper_removed scope1)))
        \<le> card {x. in_tree (parentElement (run wrapper_removed scope1)) 10 x}"
proof -
  have "{x. in_tree (parentElement (run wrapper_removed scope1)) 10 x} = {10}"
    using in_tree_wrapper_removed by (auto intro: in_tree.root)
  moreover have "length (bindings 1 (setOption 1 7 (run wrapper_removed scope1))) = 2"
    by (simp add: scope_defs)
  moreover have "\<not> distinct (map el (bindings 1 (run double_attach scope1)))"
      "bindings 1 (run [SetParent 50 (Some 40), RefCallback 1 (Some 50), SetParent 50 None,
                       NextTick] scope1) = [\<lparr>el = 50, chart = 5\<rparr>]"
      "parentElement (run [SetParent 50 (Some 40), RefCallback 1 (Some 50), SetParent 50 None,
                          NextTick] scope1) 50 = None"
    by (simp_all add: scope_defs)
  ultimately show ?thesis by simp
qed

end
